theory Spec2Isabelle
  imports Main "HOL-Library.Word"
begin

section \<open>The data of main.go\<close>

text \<open>
  An \<^verbatim>\<open>error\<close> value is kept as the text its \<^verbatim>\<open>Error()\<close> method returns; a
  nil error is \<open>None\<close>. Go's \<^verbatim>\<open>int\<close> is the 64-bit machine integer of the usual
  targets: a \<open>64 word\<close>, read with \<open>sint\<close>, whose subtraction wraps.
\<close>

type_synonym error = string

type_synonym go_int = "64 word"

text \<open>
  \<^verbatim>\<open>ChatMessage\<close>: the field \<open>Username\<close> is the nested \<^verbatim>\<open>User.Username\<close>.
  \<^verbatim>\<open>ChatMessageResult\<close>: the field \<open>chatMessage\<close> is the nested
  \<^verbatim>\<open>Result.Data.ChatMessage\<close>.
\<close>

record ChatMessage =
  Message :: string
  Username :: string

record ChatMessageResult =
  chatMessage :: ChatMessage

record ClientCredentialsResult =
  AccessToken :: string
  RefreshToken :: "string option"
  CreatedAt :: string
  Expires :: go_int
  Scope :: string
  TokenType :: string

record GQLQuery =
  Query :: string
  Variables :: "(string \<times> string) list"

text \<open>
  \<^verbatim>\<open>Variables\<close> of a query is a map from names to values; the program only ever
  gives the empty map. The zero values of Go are what a declared variable holds before
  anything is decoded into it.
\<close>

definition zero_ChatMessage :: ChatMessage where
  "zero_ChatMessage = \<lparr>Message = [], Username = []\<rparr>"

definition zero_ChatMessageResult :: ChatMessageResult where
  "zero_ChatMessageResult = \<lparr>chatMessage = zero_ChatMessage\<rparr>"

text \<open>The command-line flags of \<^verbatim>\<open>main\<close>, read once.\<close>

record flags =
  endpoint :: string
  password :: string
  prefix :: string
  channelID :: go_int
  clientID :: string
  clientSecret :: string
  chatHistorySize :: go_int
  loglevel :: string

text \<open>Lines 77 to 84: the defaults of the flags.\<close>

definition default_flags :: flags where
  "default_flags =
     \<lparr>endpoint = ''http://localhost:4337/ws'', password = [], prefix = ''glimesh/'',
      channelID = - 1, clientID = [], clientSecret = [], chatHistorySize = 6,
      loglevel = ''info''\<rparr>"

definition chatEventKey :: "flags \<Rightarrow> string" where
  "chatEventKey f = prefix f @ ''ev/chat-message''"

definition chatRPCKey :: "flags \<Rightarrow> string" where
  "chatRPCKey f = prefix f @ ''@send-chat-message''"

definition chatHistoryKey :: "flags \<Rightarrow> string" where
  "chatHistoryKey f = prefix f @ ''chat-history''"

section \<open>Effects\<close>

text \<open>
  Every call that leaves the process is an entry of a trace, with what the call
  returned: the key-value client, the websocket, the logger and the standard streams are
  libraries outside the repository, and what they return is an input of the model.
  A frame is written either from a literal text of the source or from the bytes
  \<^verbatim>\<open>jsoniter.Marshal\<close> produced for a Go value; the latter is kept as that value.
\<close>

datatype level = DebugLevel | InfoLevel | ErrorLevel | FatalLevel

datatype store_value = MessageValue ChatMessage | HistoryValue "ChatMessage list"

datatype element = Str string | Gql GQLQuery

datatype frame = TextFrame string | Marshalled "element list"

datatype effect =
    NewClient string string
  | GetJSON string
  | SetJSON string store_value "error option"
  | HttpPost string string string
  | Dial string
  | Write frame "error option"
  | SubscribeKey string
  | Log level string "(string \<times> string) list"
  | Println frame
  | Stderr string
  | ChanSend ChatMessage

text \<open>
  How a piece of the program ends: it goes on with a value, the process exits with a
  status (\<^verbatim>\<open>os.Exit\<close>), or the runtime panics.
\<close>

datatype 'a outcome = Continue 'a | Exit nat | Panic string

type_synonym 'a action = "effect list \<times> 'a outcome"

definition bind :: "'a action \<Rightarrow> ('a \<Rightarrow> 'b action) \<Rightarrow> 'b action" where
  "bind m k =
     (case m of
        (fx, Continue a) \<Rightarrow> (case k a of (fx', r) \<Rightarrow> (fx @ fx', r))
      | (fx, Exit n) \<Rightarrow> (fx, Exit n)
      | (fx, Panic p) \<Rightarrow> (fx, Panic p))"

definition emit :: "effect list \<Rightarrow> unit action" where
  "emit fx = (fx, Continue ())"

definition newline :: string where
  "newline = [CHR 0x0A]"

text \<open>
  \<^verbatim>\<open>check(err, format)\<close>, as every call site uses it (no further arguments): on an
  error it prints \<^verbatim>\<open>format + ": %s\n"\<close> with the error to standard error and exits
  with status 1.
\<close>

definition check :: "error option \<Rightarrow> string \<Rightarrow> unit action" where
  "check err format =
     (case err of
        None \<Rightarrow> ([], Continue ())
      | Some e \<Rightarrow> ([Stderr (format @ '': '' @ e @ newline)], Exit 1))"

text \<open>\<^verbatim>\<open>log.Fatal\<close> of logrus: the entry is logged, then the process exits with status 1.\<close>

definition fatal :: "string \<Rightarrow> (string \<times> string) list \<Rightarrow> 'a action" where
  "fatal msg fs = ([Log FatalLevel msg fs], Exit 1)"

definition log_error :: "error option \<Rightarrow> string \<Rightarrow> (string \<times> string) list \<Rightarrow> effect list" where
  "log_error err msg fs =
     (case err of None \<Rightarrow> [] | Some e \<Rightarrow> [Log ErrorLevel msg (fs @ [(''error'', e)])])"

section \<open>The history buffer\<close>

text \<open>
  \<^verbatim>\<open>s[low:]\<close> on a slice: the indices are in range when \<open>0 \<le> low \<le> len(s)\<close>,
  otherwise the runtime panics. \<open>None\<close> is the panic.
\<close>

definition slice_from :: "'a list \<Rightarrow> go_int \<Rightarrow> 'a list option" where
  "slice_from s low =
     (if 0 \<le> sint low \<and> sint low \<le> int (length s) then Some (drop (nat (sint low)) s)
      else None)"

text \<open>
  The lower bound \<^verbatim>\<open>len(chatHistory)-*chatHistorySize\<close>, a subtraction of machine
  integers.
\<close>

definition lower_bound :: "'a list \<Rightarrow> go_int \<Rightarrow> go_int" where
  "lower_bound s n = word_of_nat (length s) - n"

text \<open>
  Lines 190 to 192: \<^verbatim>\<open>if len(chatHistory) > *chatHistorySize\<close> the history is
  re-sliced from the lower bound. The length of a slice is its exact length.
\<close>

definition truncate_history :: "ChatMessage list \<Rightarrow> go_int \<Rightarrow> ChatMessage list option" where
  "truncate_history s n =
     (if sint n < int (length s) then slice_from s (lower_bound s n) else Some s)"

section \<open>Strings\<close>

text \<open>
  A Go string is a sequence of bytes, here a \<open>string\<close>. The functions of the standard
  library that the relay calls are written out as far as it calls them.
\<close>

definition quote :: char where
  "quote = CHR 0x22"

definition backslash :: char where
  "backslash = CHR 0x5C"

text \<open>
  \<^verbatim>\<open>strings.Replace(s, old, new, -1)\<close> for a pattern \<open>old\<close> of one byte: every
  occurrence is replaced.
\<close>

primrec Replace :: "string \<Rightarrow> char \<Rightarrow> string \<Rightarrow> string" where
  "Replace [] old new = []"
| "Replace (c # cs) old new = (if c = old then new else [c]) @ Replace cs old new"

text \<open>
  The characters \<^verbatim>\<open>unicode.IsSpace\<close> accepts, in UTF-8: tab, line feed, vertical
  tab, form feed, carriage return, space, U+0085, U+00A0, U+1680, U+2000 to U+200A,
  U+2028, U+2029, U+202F, U+205F and U+3000.
\<close>

definition White_Space :: "string list" where
  "White_Space =
     [[CHR 0x09], [CHR 0x0A], [CHR 0x0B], [CHR 0x0C], [CHR 0x0D], [CHR 0x20],
      [CHR 0xC2, CHR 0x85], [CHR 0xC2, CHR 0xA0],
      [CHR 0xE1, CHR 0x9A, CHR 0x80],
      [CHR 0xE2, CHR 0x80, CHR 0x80], [CHR 0xE2, CHR 0x80, CHR 0x81],
      [CHR 0xE2, CHR 0x80, CHR 0x82], [CHR 0xE2, CHR 0x80, CHR 0x83],
      [CHR 0xE2, CHR 0x80, CHR 0x84], [CHR 0xE2, CHR 0x80, CHR 0x85],
      [CHR 0xE2, CHR 0x80, CHR 0x86], [CHR 0xE2, CHR 0x80, CHR 0x87],
      [CHR 0xE2, CHR 0x80, CHR 0x88], [CHR 0xE2, CHR 0x80, CHR 0x89],
      [CHR 0xE2, CHR 0x80, CHR 0x8A],
      [CHR 0xE2, CHR 0x80, CHR 0xA8], [CHR 0xE2, CHR 0x80, CHR 0xA9],
      [CHR 0xE2, CHR 0x80, CHR 0xAF],
      [CHR 0xE2, CHR 0x81, CHR 0x9F],
      [CHR 0xE3, CHR 0x80, CHR 0x80]]"

fun has_prefix :: "'a list \<Rightarrow> 'a list \<Rightarrow> bool" where
  "has_prefix [] s = True"
| "has_prefix (c # e) [] = False"
| "has_prefix (c # e) (d # s) = (c = d \<and> has_prefix e s)"

text \<open>
  The encoding among \<open>encs\<close> that the string starts with, if any. The encodings of
  the white space characters are the only byte sequences that decode to them, and none
  is the start or the end of another: a string starts (or ends) with at most one.
\<close>

definition rune_at_start :: "string list \<Rightarrow> string \<Rightarrow> string option" where
  "rune_at_start encs s = find (\<lambda>e. e \<noteq> [] \<and> has_prefix e s) encs"

function strip_runes :: "string list \<Rightarrow> string \<Rightarrow> string" where
  "strip_runes encs s =
     (case rune_at_start encs s of
        None \<Rightarrow> s
      | Some e \<Rightarrow> strip_runes encs (drop (length e) s))"
  by pat_completeness auto
termination
proof (relation "measure (\<lambda>(encs, s). length s)")
  show "wf (measure (\<lambda>(encs, s). length s))"
    by simp
next
  fix encs :: "string list" and s e :: string
  assume found: "rune_at_start encs s = Some e"
  have len: "has_prefix a b \<Longrightarrow> length a \<le> length b" for a b :: string
    by (induction a b rule: has_prefix.induct) auto
  from found have "e \<noteq> []" and "has_prefix e s"
    by (auto simp: rune_at_start_def find_Some_iff)
  then have "0 < length e" and "length e \<le> length s"
    by (simp_all add: len)
  then have "length s - length e < length s"
    by arith
  then show "((encs, drop (length e) s), (encs, s)) \<in> measure (\<lambda>(encs, s). length s)"
    by simp
qed

declare strip_runes.simps [simp del]

text \<open>
  \<^verbatim>\<open>strings.TrimSpace\<close>: the white space at the start is cut rune by rune, then
  the white space at the end, which is read backwards. The cut stops at the first rune
  that is not white space; a byte that belongs to no valid encoding is such a rune.
\<close>

definition TrimLeft :: "string \<Rightarrow> string" where
  "TrimLeft s = strip_runes White_Space s"

definition TrimRight :: "string \<Rightarrow> string" where
  "TrimRight s = rev (strip_runes (map rev White_Space) (rev s))"

definition TrimSpace :: "string \<Rightarrow> string" where
  "TrimSpace s = TrimRight (TrimLeft s)"

text \<open>The verb \<^verbatim>\<open>%d\<close> of \<^verbatim>\<open>fmt.Sprintf\<close> on an \<^verbatim>\<open>int\<close>: its decimal digits, after a minus sign when negative.\<close>

definition digit :: "nat \<Rightarrow> char" where
  "digit d = ''0123456789'' ! d"

fun decimal :: "nat \<Rightarrow> string" where
  "decimal n = (if n < 10 then [digit n] else decimal (n div 10) @ [digit (n mod 10)])"

declare decimal.simps [simp del]

definition format_d :: "go_int \<Rightarrow> string" where
  "format_d n =
     (if sint n < 0 then CHR ''-'' # decimal (nat (- sint n)) else decimal (nat (sint n)))"

section \<open>The frames written to the websocket\<close>

text \<open>Lines 135, 136 and 182: the texts of the join, subscribe and heartbeat frames.\<close>

definition join_frame :: string where
  \<open>join_frame = ''["1","1","__absinthe__:control","phx_join",{}]''\<close>

definition subscribe_frame :: "go_int \<Rightarrow> string" where
  \<open>subscribe_frame cid =
     ''["1","2","__absinthe__:control","doc",{"query":"subscription{ chatMessage(channelId: ''
     @ format_d cid
     @ '') { user { username } message } }","variables":{} }]''\<close>

definition heartbeat_frame :: string where
  \<open>heartbeat_frame = ''["1","3","phoenix","heartbeat",{}]''\<close>

text \<open>Lines 200 to 203: the message is escaped and cleaned, set into the mutation, and the frame is the value given to \<^verbatim>\<open>Marshal\<close>.\<close>

definition clean_message :: "string \<Rightarrow> string" where
  "clean_message v = TrimSpace (Replace v quote [backslash, quote])"

definition mutation_payload :: "go_int \<Rightarrow> string \<Rightarrow> string" where
  \<open>mutation_payload cid message =
     ''mutation {createChatMessage(channelId: '' @ format_d cid
     @ '', message: {message: "'' @ message @ ''"}) { message }}''\<close>

definition send_frame :: "go_int \<Rightarrow> string \<Rightarrow> element list" where
  "send_frame cid v =
     [Str ''1'', Str ''4'', Str ''__absinthe__:control'', Str ''doc'',
      Gql \<lparr>Query = mutation_payload cid (clean_message v), Variables = []\<rparr>]"

section \<open>The receive goroutine\<close>

text \<open>
  Lines 141 to 170. One \<^verbatim>\<open>c.Read\<close> returns an error (\<^verbatim>\<open>io.EOF\<close> or another) or a
  message type and its bytes. For a text message the bytes are decoded into five fresh
  variables; \<open>decoded\<close> holds them after \<^verbatim>\<open>Unmarshal\<close> returned nil. What
  \<^verbatim>\<open>Unmarshal\<close> returns for the bytes is part of the input: the decoder is a library.
\<close>

datatype read_error = EOF | Other error

datatype MessageType = MessageText | MessageBinary

record decoded =
  msgType :: "string option"
  msgSubType :: "string option"
  subId :: string
  subType :: string
  result :: ChatMessageResult

datatype read_result =
    ReadError read_error
  | ReadOk MessageType string "error + decoded"

definition receive :: "read_result \<Rightarrow> unit action" where
  "receive r =
     (case r of
        ReadError EOF \<Rightarrow> fatal ''Connection was closed by remote'' [(''error'', ''EOF'')]
      | ReadError (Other e) \<Rightarrow> fatal ''Could not read from websocket'' [(''error'', e)]
      | ReadOk mtyp byt dec \<Rightarrow>
          bind (emit [Log DebugLevel byt []])
            (\<lambda>_. if mtyp = MessageText then
                    (case dec of
                       Inl e \<Rightarrow>
                         emit [Log ErrorLevel ''Could not decode websocket message''
                                 [(''error'', e)]]
                     | Inr v \<Rightarrow>
                         if msgType v = None \<and> msgSubType v = None
                         then emit [ChanSend (chatMessage (result v))]
                         else emit [])
                  else emit []))"

text \<open>
  The loop over the reads that arrive: it goes on (blocked in the next read) until a
  read fails.
\<close>

fun receive_loop :: "read_result list \<Rightarrow> unit action" where
  "receive_loop [] = ([], Continue ())"
| "receive_loop (r # rs) = bind (receive r) (\<lambda>_. receive_loop rs)"

text \<open>The messages handed to the relay loop through the channel \<^verbatim>\<open>wsmsg\<close>, in order.\<close>

fun sent :: "effect list \<Rightarrow> ChatMessage list" where
  "sent [] = []"
| "sent (ChanSend m # fx) = m # sent fx"
| "sent (_ # fx) = sent fx"

section \<open>The relay loop\<close>

text \<open>
  Lines 179 to 216. An event is what one \<^verbatim>\<open>select\<close> delivers, with what the calls
  of its case return: the write of the heartbeat; a chat message and the two
  \<^verbatim>\<open>SetJSON\<close> calls; a key and value of the RPC subscription, \<^verbatim>\<open>Marshal\<close> and the
  write of the frame.
\<close>

datatype event =
    TickerC "error option"
  | Wsmsg ChatMessage "error option" "error option"
  | Incoming string string "error option" "error option"

definition on_ticker :: "ChatMessage list \<Rightarrow> error option \<Rightarrow> ChatMessage list action" where
  "on_ticker chatHistory werr =
     bind (emit [Write (TextFrame heartbeat_frame) werr])
       (\<lambda>_. bind (check werr ''Could not send heartbeat'') (\<lambda>_. ([], Continue chatHistory)))"

definition on_wsmsg ::
  "flags \<Rightarrow> ChatMessage list \<Rightarrow> ChatMessage \<Rightarrow> error option \<Rightarrow> error option
   \<Rightarrow> ChatMessage list action" where
  "on_wsmsg f chatHistory msg err1 err2 =
     bind (emit ([Log DebugLevel ''Received message'' [(''user'', Username msg)],
                  SetJSON (chatEventKey f) (MessageValue msg) err1]
                 @ log_error err1 ''Could not set chat key'' [(''key'', chatEventKey f)]))
       (\<lambda>_. case truncate_history (chatHistory @ [msg]) (chatHistorySize f) of
               None \<Rightarrow> ([], Panic ''slice bounds out of range'')
             | Some h \<Rightarrow>
                 ([SetJSON (chatHistoryKey f) (HistoryValue h) err2]
                  @ log_error err2 ''Could not set chat key'' [(''key'', chatHistoryKey f)],
                  Continue h))"

definition on_incoming ::
  "flags \<Rightarrow> ChatMessage list \<Rightarrow> string \<Rightarrow> string \<Rightarrow> error option \<Rightarrow> error option
   \<Rightarrow> ChatMessage list action" where
  "on_incoming f chatHistory key v merr werr =
     bind (emit [Log DebugLevel ''Received RPC message'' [(''key'', key)]])
       (\<lambda>_. case merr of
               Some e \<Rightarrow>
                 ([Log ErrorLevel ''Could not encode chat message'' [(''error'', e)]],
                  Continue chatHistory)
             | None \<Rightarrow>
                 ([Println (Marshalled (send_frame (channelID f) v)),
                   Write (Marshalled (send_frame (channelID f) v)) werr]
                  @ (case werr of
                       Some e \<Rightarrow> [Log ErrorLevel ''Could not send chat message'' [(''error'', e)]]
                     | None \<Rightarrow> [Log DebugLevel ''Sent message'' []]),
                  Continue chatHistory))"

definition relay_step :: "flags \<Rightarrow> ChatMessage list \<Rightarrow> event \<Rightarrow> ChatMessage list action" where
  "relay_step f chatHistory ev =
     (case ev of
        TickerC werr \<Rightarrow> on_ticker chatHistory werr
      | Wsmsg msg err1 err2 \<Rightarrow> on_wsmsg f chatHistory msg err1 err2
      | Incoming key v merr werr \<Rightarrow> on_incoming f chatHistory key v merr werr)"

fun relay_loop :: "flags \<Rightarrow> ChatMessage list \<Rightarrow> event list \<Rightarrow> ChatMessage list action" where
  "relay_loop f chatHistory [] = ([], Continue chatHistory)"
| "relay_loop f chatHistory (ev # evs) =
     bind (relay_step f chatHistory ev) (\<lambda>h. relay_loop f h evs)"

text \<open>
  The key-value store is outside the process. What it holds after a trace: a
  \<^verbatim>\<open>SetJSON\<close> that returned nil has set its key, one that returned an error has not.
\<close>

fun store_set :: "(string \<rightharpoonup> store_value) \<Rightarrow> effect \<Rightarrow> (string \<rightharpoonup> store_value)" where
  "store_set st (SetJSON k v None) = st(k \<mapsto> v)"
| "store_set st _ = st"

definition store_after :: "(string \<rightharpoonup> store_value) \<Rightarrow> effect list \<Rightarrow> (string \<rightharpoonup> store_value)" where
  "store_after st fx = foldl store_set st fx"

text \<open>The chat messages of a list as events, every store write returning nil.\<close>

definition deliver :: "ChatMessage list \<Rightarrow> event list" where
  "deliver ms = map (\<lambda>m. Wsmsg m None None) ms"

section \<open>Startup\<close>

text \<open>
  Lines 97 to 136 and 172 to 175. What the calls of the startup return:
  \<^verbatim>\<open>kvclient.NewClient\<close>, \<^verbatim>\<open>GetJSON\<close> with the history it decoded, the
  \<^verbatim>\<open>SetJSON\<close> of the empty history, \<^verbatim>\<open>http.Post\<close>, the decoding of the
  credentials with their value, \<^verbatim>\<open>websocket.Dial\<close>, the two writes and
  \<^verbatim>\<open>SubscribeKey\<close>.
\<close>

record startup_results =
  newClient :: "error option"
  getJSON :: "error option"
  stored :: "ChatMessage list"
  setJSON :: "error option"
  httpPost :: "error option"
  decode :: "error option"
  credentials :: ClientCredentialsResult
  dial :: "error option"
  writeJoin :: "error option"
  writeSubscribe :: "error option"
  subscribeKey :: "error option"

definition load_history :: "flags \<Rightarrow> startup_results \<Rightarrow> ChatMessage list action" where
  "load_history f r =
     (case getJSON r of
        Some e \<Rightarrow>
          ([GetJSON (chatHistoryKey f), SetJSON (chatHistoryKey f) (HistoryValue []) (setJSON r)],
           Continue [])
      | None \<Rightarrow> ([GetJSON (chatHistoryKey f)], Continue (stored r)))"

definition token_request :: "flags \<Rightarrow> string" where
  "token_request f =
     ''grant_type=client_credentials&client_id='' @ clientID f
     @ ''&client_secret='' @ clientSecret f @ ''&scope=chat''"

definition socket_url :: "ClientCredentialsResult \<Rightarrow> string" where
  "socket_url c = ''wss://glimesh.tv/api/socket/websocket?vsn=2.0.0&token='' @ AccessToken c"

definition connect :: "flags \<Rightarrow> startup_results \<Rightarrow> unit action" where
  "connect f r =
     bind (emit [HttpPost ''https://glimesh.tv/api/oauth/token''
                   ''application/x-www-form-urlencoded'' (token_request f)])
    (\<lambda>_. bind (check (httpPost r) ''Could not retrieve Glimesh API token'')
    (\<lambda>_. bind (check (decode r) ''Could not decode Glimesh API response'')
    (\<lambda>_. bind (emit [Dial (socket_url (credentials r))])
    (\<lambda>_. bind (check (dial r) ''Could not connect to Glimesh websocket'')
    (\<lambda>_. bind (emit [Write (TextFrame join_frame) (writeJoin r)])
    (\<lambda>_. bind (check (writeJoin r) ''Could not send join message'')
    (\<lambda>_. bind (emit [Write (TextFrame (subscribe_frame (channelID f))) (writeSubscribe r)])
    (\<lambda>_. bind (check (writeSubscribe r) ''Could not send join message'')
    (\<lambda>_. emit [Log InfoLevel ''Connected to Kilovolt'' [(''endpoint'', endpoint f)]])))))))))"

definition subscribe :: "flags \<Rightarrow> startup_results \<Rightarrow> unit action" where
  "subscribe f r =
     bind (emit [SubscribeKey (chatRPCKey f)])
       (\<lambda>_. case subscribeKey r of
               Some e \<Rightarrow> fatal ''Could not subscribe to chat RPC key'' [(''error'', e)]
             | None \<Rightarrow> ([], Continue ()))"

definition startup :: "flags \<Rightarrow> startup_results \<Rightarrow> ChatMessage list action" where
  "startup f r =
     (if clientID f = [] \<or> clientSecret f = [] then
        fatal (''You must provide a client ID and secret key, check ''
               @ ''https://glimesh.tv/users/settings/applications/new ''
               @ ''to make a new Glimesh.tv application'') []
      else if channelID f = - 1 then fatal ''You must provide a channel ID'' []
      else
        bind (emit [NewClient (endpoint f) (password f)])
       (\<lambda>_. bind (check (newClient r) ''Connection to kilovolt failed'')
       (\<lambda>_. bind (load_history f r)
       (\<lambda>chatHistory. bind (connect f r)
       (\<lambda>_. bind (subscribe f r)
       (\<lambda>_. ([], Continue chatHistory)))))))"

text \<open>The main goroutine: the startup, then the relay loop over the events that arrive.\<close>

definition main :: "flags \<Rightarrow> startup_results \<Rightarrow> event list \<Rightarrow> ChatMessage list action" where
  "main f r evs = bind (startup f r) (\<lambda>chatHistory. relay_loop f chatHistory evs)"

text \<open>Three chat messages, for the scenarios.\<close>

definition msgA :: ChatMessage where
  "msgA = \<lparr>Message = ''A'', Username = ''ann''\<rparr>"

definition msgB :: ChatMessage where
  "msgB = \<lparr>Message = ''B'', Username = ''bob''\<rparr>"

definition msgC :: ChatMessage where
  "msgC = \<lparr>Message = ''C'', Username = ''cat''\<rparr>"

text \<open>Flags that pass the checks of the startup, and a startup whose calls all return nil.\<close>

definition example_flags :: flags where
  "example_flags = default_flags\<lparr>channelID := 42, clientID := ''id'', clientSecret := ''secret''\<rparr>"

definition all_nil :: startup_results where
  "all_nil =
     \<lparr>newClient = None, getJSON = None, stored = [], setJSON = None, httpPost = None,
      decode = None,
      credentials = \<lparr>AccessToken = ''token'', RefreshToken = None, CreatedAt = [], Expires = 0,
                     Scope = ''chat'', TokenType = ''bearer''\<rparr>,
      dial = None, writeJoin = None, writeSubscribe = None, subscribeKey = None\<rparr>"

text \<open>
  What the relay loop does for one read of the goroutine: every message the goroutine
  sent on the channel arrives as one \<^verbatim>\<open>wsmsg\<close> event, whose two store writes return
  \<open>err1\<close> and \<open>err2\<close>.
\<close>

definition reaction ::
  "flags \<Rightarrow> ChatMessage list \<Rightarrow> read_result \<Rightarrow> error option \<Rightarrow> error option
   \<Rightarrow> ChatMessage list action" where
  "reaction f h r err1 err2 =
     relay_loop f h (map (\<lambda>m. Wsmsg m err1 err2) (sent (fst (receive r))))"

text \<open>
  The variables after the reply to the join was decoded (both tags set), and after a
  data push without the chat payload was decoded (both tags nil, the result as declared).
\<close>

definition join_reply :: decoded where
  "join_reply =
     \<lparr>msgType = Some ''1'', msgSubType = Some ''1'', subId = ''__absinthe__:control'',
      subType = ''phx_reply'', result = zero_ChatMessageResult\<rparr>"

definition empty_push :: decoded where
  "empty_push =
     \<lparr>msgType = None, msgSubType = None, subId = ''__absinthe__:doc:1'',
      subType = ''subscription:data'', result = zero_ChatMessageResult\<rparr>"

definition join_reply_text :: string where
  \<open>join_reply_text = ''["1","1","__absinthe__:control","phx_reply",{"response":{},"status":"ok"}]''\<close>

definition empty_push_text :: string where
  \<open>empty_push_text = ''[null,null,"__absinthe__:doc:1","subscription:data",{}]''\<close>

section \<open>The shape of a frame\<close>

text \<open>
  The text of an array of five elements, four strings and a payload, as the remote
  service expects it: two reference ids, the topic, the event and the payload object.
\<close>

definition frame_text :: "string \<Rightarrow> string \<Rightarrow> string \<Rightarrow> string \<Rightarrow> string \<Rightarrow> string" where
  \<open>frame_text ref1 ref2 topic event payload =
     ''["'' @ ref1 @ ''","'' @ ref2 @ ''","'' @ topic @ ''","'' @ event @ ''",'' @ payload @ '']''\<close>

text \<open>The frames of the writes of a trace, in order.\<close>

fun writes :: "effect list \<Rightarrow> frame list" where
  "writes [] = []"
| "writes (Write fr res # fx) = fr # writes fx"
| "writes (_ # fx) = writes fx"

text \<open>The frames the program writes: join, subscribe, heartbeat, and the frame of a request.\<close>

definition frame_kinds :: "flags \<Rightarrow> frame set" where
  "frame_kinds f =
     {TextFrame join_frame, TextFrame (subscribe_frame (channelID f)), TextFrame heartbeat_frame}
     \<union> range (\<lambda>v. Marshalled (send_frame (channelID f) v))"

section \<open>Lemmas on the history buffer and the traces\<close>

lemma truncate_history_near:
  assumes "0 \<le> sint n" and "int (length s) \<le> sint n + 1"
  shows "truncate_history s n = Some (drop (length s - nat (sint n)) s)"
proof (cases "sint n < int (length s)")
  case False
  then show ?thesis by (simp add: truncate_history_def)
next
  case True
  with assms have len: "int (length s) = sint n + 1" by simp
  then have "(word_of_nat (length s) :: 64 word) = word_of_int (sint n + 1)"
    by (metis of_int_of_nat_eq)
  then have "lower_bound s n = 1"
    by (simp add: lower_bound_def)
  moreover from len assms have "length s - nat (sint n) = 1" by simp
  moreover from len assms have "1 \<le> length s" by simp
  ultimately show ?thesis using True
    by (simp add: truncate_history_def slice_from_def)
qed

lemma bind_Continue: "bind (fx, Continue a) k = (fx @ fst (k a), snd (k a))"
  by (simp add: bind_def split: prod.splits)

lemma bind_Exit: "bind (fx, Exit n) k = (fx, Exit n)"
  by (simp add: bind_def)

lemma bind_Panic: "bind (fx, Panic p) k = (fx, Panic p)"
  by (simp add: bind_def)

lemma store_after_append: "store_after st (fx @ fx') = store_after (store_after st fx) fx'"
  by (simp add: store_after_def)

lemma store_after_Nil: "store_after st [] = st"
  by (simp add: store_after_def)

lemma store_after_Cons: "store_after st (e # fx) = store_after (store_set st e) fx"
  by (simp add: store_after_def)

lemma keys_distinct: "chatHistoryKey f \<noteq> chatEventKey f"
  by (simp add: chatHistoryKey_def chatEventKey_def)

lemma on_wsmsg_ok:
  assumes "0 \<le> sint (chatHistorySize f)" and "int (length h) \<le> sint (chatHistorySize f)"
  shows "on_wsmsg f h m None None =
     ([Log DebugLevel ''Received message'' [(''user'', Username m)],
       SetJSON (chatEventKey f) (MessageValue m) None,
       SetJSON (chatHistoryKey f)
         (HistoryValue (drop (Suc (length h) - nat (sint (chatHistorySize f))) (h @ [m]))) None],
      Continue (drop (Suc (length h) - nat (sint (chatHistorySize f))) (h @ [m])))"
proof -
  from assms have "truncate_history (h @ [m]) (chatHistorySize f) =
      Some (drop (length (h @ [m]) - nat (sint (chatHistorySize f))) (h @ [m]))"
    by (intro truncate_history_near) simp_all
  then show ?thesis
    by (simp add: on_wsmsg_def emit_def bind_Continue log_error_def)
qed

lemma relay_loop_window:
  assumes "1 \<le> sint (chatHistorySize f)"
  shows "length h \<le> nat (sint (chatHistorySize f)) \<Longrightarrow>
    \<exists>fx. relay_loop f h (deliver ms)
            = (fx, Continue (drop (length (h @ ms) - nat (sint (chatHistorySize f))) (h @ ms)))
       \<and> (ms \<noteq> [] \<longrightarrow>
            store_after st fx (chatHistoryKey f)
              = Some (HistoryValue (drop (length (h @ ms) - nat (sint (chatHistorySize f))) (h @ ms)))
          \<and> store_after st fx (chatEventKey f) = Some (MessageValue (last ms)))"
proof (induction ms arbitrary: h st)
  case Nil
  then show ?case by (simp add: deliver_def)
next
  case (Cons m ms)
  let ?c = "nat (sint (chatHistorySize f))"
  let ?h = "drop (Suc (length h) - ?c) (h @ [m])"
  let ?fx = "[Log DebugLevel ''Received message'' [(''user'', Username m)],
       SetJSON (chatEventKey f) (MessageValue m) None,
       SetJSON (chatHistoryKey f) (HistoryValue ?h) None]"
  let ?st = "store_after st ?fx"
  from assms Cons.prems have step: "on_wsmsg f h m None None = (?fx, Continue ?h)"
    by (intro on_wsmsg_ok) simp_all
  from Cons.prems assms have len: "length ?h \<le> ?c" by simp
  from Cons.IH [OF len, of ?st] obtain fx where
    loop: "relay_loop f ?h (deliver ms)
            = (fx, Continue (drop (length (?h @ ms) - ?c) (?h @ ms)))"
    and st: "ms \<noteq> [] \<longrightarrow>
            store_after ?st fx (chatHistoryKey f)
              = Some (HistoryValue (drop (length (?h @ ms) - ?c) (?h @ ms)))
          \<and> store_after ?st fx (chatEventKey f) = Some (MessageValue (last ms))"
    by blast
  have win: "drop (length (?h @ ms) - ?c) (?h @ ms) = drop (length (h @ m # ms) - ?c) (h @ m # ms)"
    using Cons.prems assms by (cases "Suc (length h) \<le> ?c") (simp_all add: Suc_diff_le)
  have run: "relay_loop f h (deliver (m # ms))
      = (?fx @ fx, Continue (drop (length (h @ m # ms) - ?c) (h @ m # ms)))"
    using step loop win by (simp add: deliver_def relay_step_def bind_Continue)
  have "store_after st (?fx @ fx) (chatHistoryKey f)
              = Some (HistoryValue (drop (length (h @ m # ms) - ?c) (h @ m # ms)))
          \<and> store_after st (?fx @ fx) (chatEventKey f) = Some (MessageValue (last (m # ms)))"
  proof (cases "ms = []")
    case True
    with loop have "fx = []" by (simp add: deliver_def)
    with True show ?thesis using keys_distinct [of f] by (simp add: store_after_Nil store_after_Cons)
  next
    case False
    with st win show ?thesis by (simp only: store_after_append) simp
  qed
  with run show ?case by blast
qed


lemma sint_lower_bound:
  "sint (lower_bound s n) = signed_take_bit 63 (int (length s) - sint n)"
proof -
  have "lower_bound s n = word_of_int (int (length s) - sint n)"
    by (simp add: lower_bound_def)
  then show ?thesis
    by (simp only: sint_sbintrunc') simp
qed

lemma truncate_history_nonneg:
  assumes "0 \<le> sint n" and "length s < 2 ^ 63"
  shows "truncate_history s n = Some (drop (length s - nat (sint n)) s)"
proof (cases "sint n < int (length s)")
  case False
  then show ?thesis by (simp add: truncate_history_def)
next
  case True
  let ?d = "int (length s) - sint n"
  from assms(2) have "int (length s) < 2 ^ 63" by (metis of_nat_less_numeral_power_cancel_iff)
  with True assms have "- (2 ^ 63) \<le> ?d" and "?d < 2 ^ 63" by simp_all
  then have "sint (lower_bound s n) = ?d"
    by (simp add: sint_lower_bound signed_take_bit_int_eq_self)
  moreover from True assms have "nat ?d = length s - nat (sint n)" by simp
  ultimately show ?thesis using True assms
    by (simp add: truncate_history_def slice_from_def)
qed


lemma check_Continue: "check err fmt = (fx, Continue u) \<longleftrightarrow> err = None \<and> fx = []"
  by (cases err) (auto simp: check_def)

lemma emit_Continue: "emit l = (fx, Continue u) \<longleftrightarrow> fx = l"
  by (auto simp: emit_def)

lemma bind_eq_Continue:
  "bind m k = (fx, Continue b) \<longleftrightarrow>
     (\<exists>fx1 a fx2. m = (fx1, Continue a) \<and> k a = (fx2, Continue b) \<and> fx = fx1 @ fx2)"
proof (cases m)
  case (Pair fx1 r)
  then show ?thesis
    by (cases r; cases "k (case r of Continue a \<Rightarrow> a)") (auto simp: bind_def)
qed

lemma connect_Continue:
  "connect f r = (fx, Continue u) \<longleftrightarrow>
     httpPost r = None \<and> decode r = None \<and> dial r = None \<and> writeJoin r = None
     \<and> writeSubscribe r = None
     \<and> fx = [HttpPost ''https://glimesh.tv/api/oauth/token''
                ''application/x-www-form-urlencoded'' (token_request f),
              Dial (socket_url (credentials r)),
              Write (TextFrame join_frame) None,
              Write (TextFrame (subscribe_frame (channelID f))) None,
              Log InfoLevel ''Connected to Kilovolt'' [(''endpoint'', endpoint f)]]"
  by (auto simp: connect_def bind_eq_Continue check_Continue emit_Continue)

lemma subscribe_Continue:
  "subscribe f r = (fx, Continue u) \<longleftrightarrow>
     subscribeKey r = None \<and> fx = [SubscribeKey (chatRPCKey f)]"
  by (auto simp: subscribe_def bind_eq_Continue emit_Continue fatal_def split: option.splits)

lemma load_history_Continue:
  "load_history f r = (fx, Continue h) \<longleftrightarrow>
     (case getJSON r of
        Some e \<Rightarrow> h = [] \<and> fx = [GetJSON (chatHistoryKey f),
                                  SetJSON (chatHistoryKey f) (HistoryValue []) (setJSON r)]
      | None \<Rightarrow> h = stored r \<and> fx = [GetJSON (chatHistoryKey f)])"
  by (auto simp: load_history_def split: option.splits)

lemma startup_Continue:
  "startup f r = (fx, Continue h) \<longleftrightarrow>
     clientID f \<noteq> [] \<and> clientSecret f \<noteq> [] \<and> channelID f \<noteq> - 1 \<and> newClient r = None
     \<and> (\<exists>fx1 fx2. load_history f r = (fx1, Continue h) \<and> connect f r = (fx2, Continue ())
           \<and> subscribeKey r = None
           \<and> fx = NewClient (endpoint f) (password f) # fx1 @ fx2 @ [SubscribeKey (chatRPCKey f)])"
  by (auto simp: startup_def fatal_def bind_eq_Continue check_Continue emit_Continue
      subscribe_Continue)

lemma receive_decoded:
  "receive (ReadOk MessageText byt (Inr v))
     = (if msgType v = None \<and> msgSubType v = None
        then ([Log DebugLevel byt [], ChanSend (chatMessage (result v))], Continue ())
        else ([Log DebugLevel byt []], Continue ()))"
  by (simp add: receive_def emit_def bind_Continue)

lemma sent_receive:
  "sent (fst (receive r))
     = (case r of
          ReadOk MessageText byt (Inr v) \<Rightarrow>
            if msgType v = None \<and> msgSubType v = None then [chatMessage (result v)] else []
        | _ \<Rightarrow> [])"
  by (auto simp: receive_def emit_def bind_Continue fatal_def
      split: read_result.splits read_error.splits MessageType.splits sum.splits)

lemma sint_lower_bound_negative:
  assumes "sint n < 0" and "length s < 2 ^ 63"
  shows "sint (lower_bound s n)
     = (if int (length s) - sint n < 2 ^ 63 then int (length s) - sint n
        else int (length s) - sint n - 2 ^ 64)"
proof -
  let ?d = "int (length s) - sint n"
  from assms(2) have len: "int (length s) < 2 ^ 63"
    by (metis of_nat_less_numeral_power_cancel_iff)
  have low: "- (2 ^ 63) \<le> sint n"
    using sint_ge [of n] by simp
  show ?thesis
  proof (cases "?d < 2 ^ 63")
    case True
    moreover from assms(1) have "- (2 ^ 63) \<le> ?d" by simp
    ultimately show ?thesis
      by (simp add: sint_lower_bound signed_take_bit_int_eq_self)
  next
    case False
    let ?e = "?d - 2 ^ 64"
    from False len low have "- (2 ^ 63) \<le> ?e" and "?e < 2 ^ 63" by simp_all
    then have "signed_take_bit 63 ?e = ?e"
      by (simp add: signed_take_bit_int_eq_self)
    moreover have "signed_take_bit (63::nat) ?e = signed_take_bit 63 ?d"
    proof -
      have "(2::int) ^ 64 = 1 * 2 ^ Suc 63" by simp
      then have "?e mod 2 ^ Suc 63 = ?d mod 2 ^ Suc 63"
        by (simp only: mod_diff_eq [symmetric, of ?d "1 * 2 ^ Suc 63"] mod_mult_self2_is_0) simp
      then show ?thesis
        by (simp only: signed_take_bit_eq_iff_take_bit_eq take_bit_eq_mod)
    qed
    ultimately show ?thesis using False
      by (simp add: sint_lower_bound)
  qed
qed

lemma writes_append: "writes (fx @ fx') = writes fx @ writes fx'"
  by (induction fx rule: writes.induct) simp_all

lemma writes_bind:
  assumes "set (writes (fst m)) \<subseteq> K" and "\<And>a. set (writes (fst (k a))) \<subseteq> K"
  shows "set (writes (fst (bind m k))) \<subseteq> K"
proof (cases m)
  case (Pair fx r)
  with assms(1) assms(2) [of "case r of Continue a \<Rightarrow> a"] show ?thesis
    by (cases r) (simp_all add: bind_Continue bind_Exit bind_Panic writes_append)
qed

lemma writes_check: "writes (fst (check err fmt)) = []"
  by (cases err) (simp_all add: check_def)

lemma writes_log_error: "writes (log_error err msg fs) = []"
  by (cases err) (simp_all add: log_error_def)

lemma writes_relay_step: "set (writes (fst (relay_step f h ev))) \<subseteq> frame_kinds f"
proof (cases ev)
  case (TickerC werr)
  then show ?thesis
    by (cases werr) (simp_all add: relay_step_def on_ticker_def emit_def check_def bind_Continue bind_Exit frame_kinds_def)
next
  case (Wsmsg m err1 err2)
  then show ?thesis
    by (simp add: relay_step_def on_wsmsg_def emit_def bind_Continue writes_append
        writes_log_error split: option.splits)
next
  case (Incoming key v merr werr)
  then show ?thesis
    by (simp add: relay_step_def on_incoming_def emit_def bind_Continue frame_kinds_def
        split: option.splits)
qed

lemma writes_relay_loop: "set (writes (fst (relay_loop f h evs))) \<subseteq> frame_kinds f"
proof (induction evs arbitrary: h)
  case Nil
  then show ?case by simp
next
  case (Cons ev evs)
  show ?case
    by (simp only: relay_loop.simps) (intro writes_bind writes_relay_step Cons.IH)
qed

lemma writes_connect: "set (writes (fst (connect f r))) \<subseteq> frame_kinds f"
  unfolding connect_def
  by (intro writes_bind) (simp_all add: emit_def writes_check frame_kinds_def)

lemma writes_startup: "set (writes (fst (startup f r))) \<subseteq> frame_kinds f"
proof -
  have load: "set (writes (fst (load_history f r))) \<subseteq> frame_kinds f"
    by (simp add: load_history_def split: option.splits)
  have sub: "set (writes (fst (subscribe f r))) \<subseteq> frame_kinds f"
    by (simp add: subscribe_def emit_def bind_Continue fatal_def split: option.splits)
  have "set (writes (fst (bind (emit [NewClient (endpoint f) (password f)])
       (\<lambda>_. bind (check (newClient r) ''Connection to kilovolt failed'')
       (\<lambda>_. bind (load_history f r)
       (\<lambda>chatHistory. bind (connect f r)
       (\<lambda>_. bind (subscribe f r)
       (\<lambda>_. ([], Continue chatHistory))))))))) \<subseteq> frame_kinds f"
    by (intro writes_bind load sub writes_connect) (simp_all add: emit_def writes_check)
  then show ?thesis
    by (simp add: startup_def fatal_def)
qed

lemma writes_main: "set (writes (fst (main f r evs))) \<subseteq> frame_kinds f"
  unfolding main_def by (intro writes_bind writes_startup writes_relay_loop)

lemma Write_in_writes: "Write fr res \<in> set fx \<Longrightarrow> fr \<in> set (writes fx)"
  by (induction fx rule: writes.induct) auto

lemma main_all_nil:
  "main example_flags all_nil evs
     = ([NewClient ''http://localhost:4337/ws'' [],
         GetJSON ''glimesh/chat-history'',
         HttpPost ''https://glimesh.tv/api/oauth/token'' ''application/x-www-form-urlencoded''
           ''grant_type=client_credentials&client_id=id&client_secret=secret&scope=chat'',
         Dial ''wss://glimesh.tv/api/socket/websocket?vsn=2.0.0&token=token'',
         Write (TextFrame join_frame) None,
         Write (TextFrame (subscribe_frame 42)) None,
         Log InfoLevel ''Connected to Kilovolt'' [(''endpoint'', ''http://localhost:4337/ws'')],
         SubscribeKey ''glimesh/@send-chat-message'']
        @ fst (relay_loop example_flags [] evs), snd (relay_loop example_flags [] evs))"
  by (simp add: main_def startup_def connect_def subscribe_def load_history_def check_def
      emit_def bind_Continue example_flags_def default_flags_def all_nil_def chatHistoryKey_def
      chatRPCKey_def token_request_def socket_url_def)

section \<open>Lemmas on escaping and trimming\<close>

lemma Replace_append: "Replace (s @ t) q r = Replace s q r @ Replace t q r"
  by (induction s) simp_all

lemma rev_Replace: "rev (Replace s q r) = Replace (rev s) q (rev r)"
  by (induction s) (simp_all add: Replace_append)

lemma has_prefix_Replace:
  assumes "q \<notin> set e" and "r \<noteq> []" and "hd r \<notin> set e"
  shows "has_prefix e (Replace s q r) \<longleftrightarrow> has_prefix e s"
  using assms
proof (induction e s rule: has_prefix.induct)
  case (1 s)
  then show ?case by simp
next
  case (2 c e)
  then show ?case by simp
next
  case (3 c e d s)
  show ?case
  proof (cases "d = q")
    case True
    with 3 show ?thesis by (cases r) auto
  next
    case False
    with 3 show ?thesis by simp
  qed
qed

lemma drop_Replace:
  assumes "has_prefix e s" and "q \<notin> set e"
  shows "drop (length e) (Replace s q r) = Replace (drop (length e) s) q r"
  using assms by (induction e s rule: has_prefix.induct) auto

lemma rune_at_start_Some:
  "rune_at_start encs s = Some e \<Longrightarrow> e \<in> set encs \<and> e \<noteq> [] \<and> has_prefix e s"
  by (auto simp: rune_at_start_def find_Some_iff)

lemma rune_at_start_Replace:
  assumes "\<forall>e\<in>set encs. q \<notin> set e \<and> hd r \<notin> set e" and "r \<noteq> []"
  shows "rune_at_start encs (Replace s q r) = rune_at_start encs s"
  unfolding rune_at_start_def
  using assms by (intro find_cong) (auto simp: has_prefix_Replace)

lemma strip_runes_Replace:
  assumes "\<forall>e\<in>set encs. q \<notin> set e \<and> hd r \<notin> set e" and "r \<noteq> []"
  shows "strip_runes encs (Replace s q r) = Replace (strip_runes encs s) q r"
  using assms
proof (induction encs s rule: strip_runes.induct)
  case (1 encs s)
  have same: "rune_at_start encs (Replace t q r) = rune_at_start encs t" for t
    using "1.prems" by (rule rune_at_start_Replace)
  show ?case
  proof (cases "rune_at_start encs s")
    case None
    then have "strip_runes encs s = s"
      by (subst strip_runes.simps) simp
    moreover from None have "strip_runes encs (Replace s q r) = Replace s q r"
      by (subst strip_runes.simps) (simp add: same)
    ultimately show ?thesis by simp
  next
    case (Some e)
    then have e: "e \<in> set encs" "has_prefix e s"
      by (simp_all add: rune_at_start_Some)
    with "1.prems" have "q \<notin> set e" by blast
    with e have cut: "drop (length e) (Replace s q r) = Replace (drop (length e) s) q r"
      by (intro drop_Replace)
    from Some have "strip_runes encs s = strip_runes encs (drop (length e) s)"
      by (subst strip_runes.simps) simp
    moreover from Some have "strip_runes encs (Replace s q r)
        = strip_runes encs (Replace (drop (length e) s) q r)"
      by (subst strip_runes.simps) (simp add: same cut)
    moreover from "1.IH" [OF Some "1.prems"]
    have "strip_runes encs (Replace (drop (length e) s) q r)
        = Replace (strip_runes encs (drop (length e) s)) q r" .
    ultimately show ?thesis by simp
  qed
qed

lemma White_Space_chars:
  "\<forall>e\<in>set White_Space. quote \<notin> set e \<and> backslash \<notin> set e"
  by (simp add: White_Space_def quote_def backslash_def)

lemma White_Space_rev_chars:
  "\<forall>e\<in>set (map rev White_Space). quote \<notin> set e \<and> backslash \<notin> set e"
  using White_Space_chars by simp

lemma TrimSpace_Replace:
  "TrimSpace (Replace s quote [backslash, quote]) = Replace (TrimSpace s) quote [backslash, quote]"
proof -
  have left: "TrimLeft (Replace t quote [backslash, quote])
      = Replace (TrimLeft t) quote [backslash, quote]" for t
    unfolding TrimLeft_def using White_Space_chars by (intro strip_runes_Replace) simp_all
  have "strip_runes (map rev White_Space) (Replace t quote [quote, backslash])
      = Replace (strip_runes (map rev White_Space) t) quote [quote, backslash]" for t
    using White_Space_rev_chars by (intro strip_runes_Replace) simp_all
  then have right: "TrimRight (Replace t quote [backslash, quote])
      = Replace (TrimRight t) quote [backslash, quote]" for t
    by (simp add: TrimRight_def rev_Replace)
  show ?thesis
    by (simp add: TrimSpace_def left right)
qed

lemma rune_at_start_strip: "rune_at_start encs (strip_runes encs s) = None"
proof (induction encs s rule: strip_runes.induct)
  case (1 encs s)
  then show ?case
    by (subst strip_runes.simps) (simp split: option.splits)
qed

lemma strip_runes_drop: "\<exists>k. strip_runes encs s = drop k s"
proof (induction encs s rule: strip_runes.induct)
  case (1 encs s)
  show ?case
  proof (cases "rune_at_start encs s")
    case None
    then have "strip_runes encs s = drop 0 s"
      by (subst strip_runes.simps) simp
    then show ?thesis by blast
  next
    case (Some e)
    with 1 obtain k where "strip_runes encs (drop (length e) s) = drop k (drop (length e) s)"
      by blast
    with Some have "strip_runes encs s = drop (k + length e) s"
      by (subst strip_runes.simps) (simp add: add.commute)
    then show ?thesis by blast
  qed
qed

lemma has_prefix_take: "has_prefix e (take k s) \<Longrightarrow> has_prefix e s"
proof (induction e s arbitrary: k rule: has_prefix.induct)
  case (1 s)
  then show ?case by simp
next
  case (2 c e)
  then show ?case by simp
next
  case (3 c e d s)
  then show ?case by (cases k) auto
qed

lemma rune_at_start_take:
  assumes "rune_at_start encs s = None"
  shows "rune_at_start encs (take k s) = None"
  using assms by (auto simp: rune_at_start_def find_None_iff dest: has_prefix_take)

lemma TrimSpace_no_space:
  "rune_at_start White_Space (TrimSpace s) = None
   \<and> rune_at_start (map rev White_Space) (rev (TrimSpace s)) = None"
proof -
  let ?l = "TrimLeft s"
  obtain k where k: "strip_runes (map rev White_Space) (rev ?l) = drop k (rev ?l)"
    using strip_runes_drop by blast
  then have "TrimSpace s = take (length ?l - k) ?l"
    by (simp add: TrimSpace_def TrimRight_def rev_drop)
  moreover have "rune_at_start White_Space ?l = None"
    by (simp add: TrimLeft_def rune_at_start_strip)
  ultimately have "rune_at_start White_Space (TrimSpace s) = None"
    by (simp add: rune_at_start_take)
  moreover have "rune_at_start (map rev White_Space) (rev (TrimSpace s)) = None"
    by (simp add: TrimSpace_def TrimRight_def rune_at_start_strip)
  ultimately show ?thesis by blast
qed

section \<open>The claims\<close>

text \<open>
  Claim C1. From an empty history and a capacity \<open>C \<ge> 1\<close>, after \<open>N > C\<close> chat
  messages (every store write returning nil) the history kept and the history persisted
  under the history key are the last \<open>C\<close> messages in arrival order, of length \<open>C\<close>;
  after each of the messages the persisted history is the last \<open>C\<close> of those received
  so far, never longer than \<open>C\<close>, and the chat event key holds the message just
  received.
\<close>

theorem relay_keeps_last_messages:
  assumes "1 \<le> sint (chatHistorySize f)"
    and "nat (sint (chatHistorySize f)) < length ms"
  shows "(\<exists>fx. relay_loop f [] (deliver ms)
                = (fx, Continue (drop (length ms - nat (sint (chatHistorySize f))) ms))
            \<and> store_after st fx (chatHistoryKey f)
                = Some (HistoryValue (drop (length ms - nat (sint (chatHistorySize f))) ms)))
       \<and> length (drop (length ms - nat (sint (chatHistorySize f))) ms)
           = nat (sint (chatHistorySize f))
       \<and> (\<forall>k. 1 \<le> k \<and> k \<le> length ms \<longrightarrow>
            (\<exists>fx h. relay_loop f [] (deliver (take k ms)) = (fx, Continue h)
               \<and> h = drop (k - nat (sint (chatHistorySize f))) (take k ms)
               \<and> length h \<le> nat (sint (chatHistorySize f))
               \<and> store_after st fx (chatHistoryKey f) = Some (HistoryValue h)
               \<and> store_after st fx (chatEventKey f) = Some (MessageValue (ms ! (k - 1)))))"
proof -
  let ?c = "nat (sint (chatHistorySize f))"
  have window: "\<exists>fx. relay_loop f [] (deliver xs) = (fx, Continue (drop (length xs - ?c) xs))
       \<and> store_after st fx (chatHistoryKey f) = Some (HistoryValue (drop (length xs - ?c) xs))
       \<and> store_after st fx (chatEventKey f) = Some (MessageValue (last xs))"
    if "xs \<noteq> []" for xs
    using relay_loop_window [OF assms(1), of "[]" xs st] that by auto
  from assms(2) have "ms \<noteq> []" by auto
  from window [OF this] have final: "\<exists>fx. relay_loop f [] (deliver ms)
                = (fx, Continue (drop (length ms - ?c) ms))
            \<and> store_after st fx (chatHistoryKey f)
                = Some (HistoryValue (drop (length ms - ?c) ms))"
    by blast
  from assms(2) have full: "length (drop (length ms - ?c) ms) = ?c" by simp
  have each: "\<exists>fx h. relay_loop f [] (deliver (take k ms)) = (fx, Continue h)
               \<and> h = drop (k - ?c) (take k ms)
               \<and> length h \<le> ?c
               \<and> store_after st fx (chatHistoryKey f) = Some (HistoryValue h)
               \<and> store_after st fx (chatEventKey f) = Some (MessageValue (ms ! (k - 1)))"
    if k: "1 \<le> k \<and> k \<le> length ms" for k
  proof -
    from k have ne: "take k ms \<noteq> []" by auto
    from k have len: "length (take k ms) = k" by simp
    from k ne have "last (take k ms) = ms ! (k - 1)"
      by (simp add: last_conv_nth)
    with window [OF ne] len show ?thesis by auto
  qed
  from final full each show ?thesis by blast
qed

text \<open>
  The scenario of capacity 2 and the messages A, B, C: the persisted history is A, then
  A B, then B C, and the chat event key holds A, then B, then C.
\<close>

theorem relay_keeps_last_messages_witness:
  "1 \<le> sint (chatHistorySize (default_flags\<lparr>chatHistorySize := 2\<rparr>))
   \<and> nat (sint (chatHistorySize (default_flags\<lparr>chatHistorySize := 2\<rparr>))) < length [msgA, msgB, msgC]
   \<and> (\<exists>fx. relay_loop (default_flags\<lparr>chatHistorySize := 2\<rparr>) [] (deliver [msgA])
                = (fx, Continue [msgA])
          \<and> store_after Map.empty fx ''glimesh/chat-history'' = Some (HistoryValue [msgA])
          \<and> store_after Map.empty fx ''glimesh/ev/chat-message'' = Some (MessageValue msgA))
   \<and> (\<exists>fx. relay_loop (default_flags\<lparr>chatHistorySize := 2\<rparr>) [] (deliver [msgA, msgB])
                = (fx, Continue [msgA, msgB])
          \<and> store_after Map.empty fx ''glimesh/chat-history'' = Some (HistoryValue [msgA, msgB])
          \<and> store_after Map.empty fx ''glimesh/ev/chat-message'' = Some (MessageValue msgB))
   \<and> (\<exists>fx. relay_loop (default_flags\<lparr>chatHistorySize := 2\<rparr>) [] (deliver [msgA, msgB, msgC])
                = (fx, Continue [msgB, msgC])
          \<and> store_after Map.empty fx ''glimesh/chat-history'' = Some (HistoryValue [msgB, msgC])
          \<and> store_after Map.empty fx ''glimesh/ev/chat-message'' = Some (MessageValue msgC))"
proof -
  let ?f = "default_flags\<lparr>chatHistorySize := 2\<rparr>"
  have cap: "1 \<le> sint (chatHistorySize ?f)"
    and more: "nat (sint (chatHistorySize ?f)) < length [msgA, msgB, msgC]"
    by (simp_all add: default_flags_def)
  have keys: "chatHistoryKey ?f = ''glimesh/chat-history''"
    "chatEventKey ?f = ''glimesh/ev/chat-message''"
    by (simp_all add: default_flags_def chatHistoryKey_def chatEventKey_def)
  have c: "nat (sint (chatHistorySize ?f)) = 2"
    by (simp add: default_flags_def)
  note all = relay_keeps_last_messages [OF cap more, of Map.empty, unfolded keys c]
  from all have each: "1 \<le> k \<and> k \<le> length [msgA, msgB, msgC] \<longrightarrow>
            (\<exists>fx h. relay_loop ?f [] (deliver (take k [msgA, msgB, msgC])) = (fx, Continue h)
               \<and> h = drop (k - 2) (take k [msgA, msgB, msgC])
               \<and> length h \<le> 2
               \<and> store_after Map.empty fx ''glimesh/chat-history'' = Some (HistoryValue h)
               \<and> store_after Map.empty fx ''glimesh/ev/chat-message''
                   = Some (MessageValue ([msgA, msgB, msgC] ! (k - 1))))" for k
    by blast
  from each [of 1] have one: "\<exists>fx. relay_loop ?f [] (deliver [msgA]) = (fx, Continue [msgA])
          \<and> store_after Map.empty fx ''glimesh/chat-history'' = Some (HistoryValue [msgA])
          \<and> store_after Map.empty fx ''glimesh/ev/chat-message'' = Some (MessageValue msgA)"
    by simp
  from each [of 2] have two: "\<exists>fx. relay_loop ?f [] (deliver [msgA, msgB]) = (fx, Continue [msgA, msgB])
          \<and> store_after Map.empty fx ''glimesh/chat-history'' = Some (HistoryValue [msgA, msgB])
          \<and> store_after Map.empty fx ''glimesh/ev/chat-message'' = Some (MessageValue msgB)"
    by simp
  from each [of 3] have three: "\<exists>fx. relay_loop ?f [] (deliver [msgA, msgB, msgC]) = (fx, Continue [msgB, msgC])
          \<and> store_after Map.empty fx ''glimesh/chat-history'' = Some (HistoryValue [msgB, msgC])
          \<and> store_after Map.empty fx ''glimesh/ev/chat-message'' = Some (MessageValue msgC)"
    by (simp add: numeral_3_eq_3)
  from cap more one two three show ?thesis by blast
qed

text \<open>
  Claim C5. When the write of the heartbeat frame on a timer tick returns an error, the
  relay prints the message \<^verbatim>\<open>Could not send heartbeat\<close> with the error to standard
  error and the process exits with status 1: the frame is written once, and whatever
  events follow are not processed.
\<close>

theorem heartbeat_failure_is_fatal:
  "relay_step f h (TickerC (Some e))
     = ([Write (TextFrame heartbeat_frame) (Some e),
         Stderr (''Could not send heartbeat: '' @ e @ newline)], Exit 1)
   \<and> relay_loop f h (TickerC (Some e) # evs)
     = ([Write (TextFrame heartbeat_frame) (Some e),
         Stderr (''Could not send heartbeat: '' @ e @ newline)], Exit 1)"
  by (simp add: relay_step_def on_ticker_def emit_def check_def bind_Continue bind_Exit)



text \<open>
  Claim C8. When \<^verbatim>\<open>GetJSON\<close> of the history key returns an error at startup, the
  history is the empty sequence and the empty sequence is written to the history key;
  in a startup that reaches the relay loop that write is the third call of the trace,
  the loop starts from the empty history, and everything the loop does comes after it.
  The result of the write is discarded; when it is nil the store holds the empty
  history under the key as the loop starts.
\<close>

theorem startup_writes_empty_history:
  assumes "getJSON r = Some e" and "startup f r = (fx, Continue h)"
  shows "load_history f r
           = ([GetJSON (chatHistoryKey f),
               SetJSON (chatHistoryKey f) (HistoryValue []) (setJSON r)], Continue [])
   \<and> h = []
   \<and> fx = [NewClient (endpoint f) (password f),
           GetJSON (chatHistoryKey f),
           SetJSON (chatHistoryKey f) (HistoryValue []) (setJSON r),
           HttpPost ''https://glimesh.tv/api/oauth/token''
             ''application/x-www-form-urlencoded'' (token_request f),
           Dial (socket_url (credentials r)),
           Write (TextFrame join_frame) None,
           Write (TextFrame (subscribe_frame (channelID f))) None,
           Log InfoLevel ''Connected to Kilovolt'' [(''endpoint'', endpoint f)],
           SubscribeKey (chatRPCKey f)]
   \<and> main f r evs = (fx @ fst (relay_loop f [] evs), snd (relay_loop f [] evs))
   \<and> (setJSON r = None \<longrightarrow> store_after st fx (chatHistoryKey f) = Some (HistoryValue []))"
proof -
  from assms(1) have load: "load_history f r
           = ([GetJSON (chatHistoryKey f),
               SetJSON (chatHistoryKey f) (HistoryValue []) (setJSON r)], Continue [])"
    by (simp add: load_history_def)
  from assms(2) load have h: "h = []"
    by (auto simp: startup_Continue)
  from assms(2) load have fx: "fx = [NewClient (endpoint f) (password f),
           GetJSON (chatHistoryKey f),
           SetJSON (chatHistoryKey f) (HistoryValue []) (setJSON r),
           HttpPost ''https://glimesh.tv/api/oauth/token''
             ''application/x-www-form-urlencoded'' (token_request f),
           Dial (socket_url (credentials r)),
           Write (TextFrame join_frame) None,
           Write (TextFrame (subscribe_frame (channelID f))) None,
           Log InfoLevel ''Connected to Kilovolt'' [(''endpoint'', endpoint f)],
           SubscribeKey (chatRPCKey f)]"
    by (auto simp: startup_Continue connect_Continue)
  from assms(2) h have run: "main f r evs = (fx @ fst (relay_loop f [] evs), snd (relay_loop f [] evs))"
    by (simp add: main_def bind_Continue)
  have "store_after st fx (chatHistoryKey f) = Some (HistoryValue [])" if "setJSON r = None"
    using that by (simp add: fx store_after_def)
  with load h fx run show ?thesis by blast
qed


text \<open>A startup whose only error is that of \<^verbatim>\<open>GetJSON\<close>, followed by one chat message.\<close>

theorem startup_writes_empty_history_witness:
  "getJSON (all_nil\<lparr>getJSON := Some ''EOF''\<rparr>) = Some ''EOF''
   \<and> (\<exists>fx. startup example_flags (all_nil\<lparr>getJSON := Some ''EOF''\<rparr>) = (fx, Continue [])
        \<and> fx ! 2 = SetJSON ''glimesh/chat-history'' (HistoryValue []) None
        \<and> store_after Map.empty fx ''glimesh/chat-history'' = Some (HistoryValue [])
        \<and> main example_flags (all_nil\<lparr>getJSON := Some ''EOF''\<rparr>) (deliver [msgA])
           = (fx @ fst (relay_loop example_flags [] (deliver [msgA])),
              snd (relay_loop example_flags [] (deliver [msgA]))))"
proof -
  let ?r = "all_nil\<lparr>getJSON := Some ''EOF''\<rparr>"
  have get: "getJSON ?r = Some ''EOF''" by simp
  have "\<exists>fx h. startup example_flags ?r = (fx, Continue h)"
    by (simp add: startup_Continue load_history_Continue connect_Continue example_flags_def
        default_flags_def all_nil_def)
  then obtain fx h where run: "startup example_flags ?r = (fx, Continue h)" by blast
  have key: "chatHistoryKey example_flags = ''glimesh/chat-history''"
    by (simp add: chatHistoryKey_def example_flags_def default_flags_def)
  have set: "setJSON ?r = None" by (simp add: all_nil_def)
  note all = startup_writes_empty_history [OF get run, of "deliver [msgA]" Map.empty]
  from all have h: "h = []" by blast
  from all have "fx ! 2 = SetJSON (chatHistoryKey example_flags) (HistoryValue []) (setJSON ?r)"
    by (elim conjE) simp
  then have second: "fx ! 2 = SetJSON ''glimesh/chat-history'' (HistoryValue []) None"
    by (simp only: key set)
  from all set have "store_after Map.empty fx (chatHistoryKey example_flags) = Some (HistoryValue [])"
    by blast
  then have st: "store_after Map.empty fx ''glimesh/chat-history'' = Some (HistoryValue [])"
    by (simp only: key)
  from all have loop: "main example_flags ?r (deliver [msgA])
           = (fx @ fst (relay_loop example_flags [] (deliver [msgA])),
              snd (relay_loop example_flags [] (deliver [msgA])))"
    by blast
  from run h second st loop
  have "startup example_flags ?r = (fx, Continue [])
        \<and> fx ! 2 = SetJSON ''glimesh/chat-history'' (HistoryValue []) None
        \<and> store_after Map.empty fx ''glimesh/chat-history'' = Some (HistoryValue [])
        \<and> main example_flags ?r (deliver [msgA])
           = (fx @ fst (relay_loop example_flags [] (deliver [msgA])),
              snd (relay_loop example_flags [] (deliver [msgA])))"
    by blast
  with get show ?thesis by blast
qed

text \<open>
  Claim C2. A text frame decoded with both leading tags set sends no chat message on
  the channel: the goroutine only logs the bytes, the relay loop receives nothing for
  it, and the store is left as it was. A read sends a chat message exactly when it is
  a text frame that decoded without error and left both tags nil.
\<close>

theorem control_frames_are_filtered:
  "(msgType v \<noteq> None \<and> msgSubType v \<noteq> None \<longrightarrow>
      receive (ReadOk MessageText byt (Inr v)) = ([Log DebugLevel byt []], Continue ())
      \<and> sent (fst (receive (ReadOk MessageText byt (Inr v)))) = []
      \<and> reaction f h (ReadOk MessageText byt (Inr v)) err1 err2 = ([], Continue h)
      \<and> store_after st (fst (reaction f h (ReadOk MessageText byt (Inr v)) err1 err2)) = st)
   \<and> (sent (fst (receive r)) \<noteq> [] \<longleftrightarrow>
        (\<exists>bytes w. r = ReadOk MessageText bytes (Inr w)
           \<and> msgType w = None \<and> msgSubType w = None))"
proof -
  have "sent (fst (receive r)) \<noteq> [] \<longleftrightarrow>
        (\<exists>bytes w. r = ReadOk MessageText bytes (Inr w)
           \<and> msgType w = None \<and> msgSubType w = None)"
    by (auto simp: sent_receive
        split: read_result.splits read_error.splits MessageType.splits sum.splits)
  then show ?thesis
    by (simp add: receive_decoded reaction_def store_after_def)
qed


text \<open>The reply to the join, whose two tags are both set.\<close>

theorem control_frames_are_filtered_witness:
  "msgType join_reply \<noteq> None \<and> msgSubType join_reply \<noteq> None
   \<and> receive (ReadOk MessageText join_reply_text (Inr join_reply)) = ([Log DebugLevel join_reply_text []], Continue ())
   \<and> reaction default_flags [msgA] (ReadOk MessageText join_reply_text (Inr join_reply)) None None
       = ([], Continue [msgA])"
proof -
  have tags: "msgType join_reply \<noteq> None \<and> msgSubType join_reply \<noteq> None"
    by (simp add: join_reply_def)
  with control_frames_are_filtered [of join_reply join_reply_text default_flags "[msgA]" None None]
  show ?thesis by blast
qed


text \<open>
  Claim C6. A text frame whose decoding returns an error is logged and skipped, and the
  goroutine reads on. Any error of the read ends the process with status 1 through
  \<^verbatim>\<open>log.Fatal\<close>, \<^verbatim>\<open>io.EOF\<close> and every other error alike; the reads that
  would follow are not made and no connection is dialled again.
\<close>

theorem decode_errors_skip_read_errors_exit:
  "receive_loop (ReadOk MessageText byt (Inl e) # rs)
     = ([Log DebugLevel byt [],
         Log ErrorLevel ''Could not decode websocket message'' [(''error'', e)]]
        @ fst (receive_loop rs), snd (receive_loop rs))
   \<and> receive_loop (ReadError EOF # rs)
     = ([Log FatalLevel ''Connection was closed by remote'' [(''error'', ''EOF'')]], Exit 1)
   \<and> receive_loop (ReadError (Other e') # rs)
     = ([Log FatalLevel ''Could not read from websocket'' [(''error'', e')]], Exit 1)
   \<and> (\<forall>err. snd (receive_loop (ReadError err # rs)) = Exit 1
          \<and> (\<forall>url. Dial url \<notin> set (fst (receive_loop (ReadError err # rs)))))"
proof -
  have "snd (receive_loop (ReadError err # rs)) = Exit 1
          \<and> (\<forall>url. Dial url \<notin> set (fst (receive_loop (ReadError err # rs))))" for err
    by (cases err) (simp_all add: receive_def fatal_def bind_Exit)
  then show ?thesis
    by (simp add: receive_def fatal_def emit_def bind_Exit bind_Continue)
qed


text \<open>
  Claim C10. A text frame that decoded without error, with both tags nil and the result
  left at its zero value, sends the zero chat message on the channel; the relay loop
  treats it as any chat message. With a capacity of at least 1 and store writes that
  return nil, it is set under the chat event key and is the last entry of the history
  set under the history key.
\<close>

theorem missing_payload_yields_zero_message:
  assumes "msgType v = None" and "msgSubType v = None"
    and "result v = zero_ChatMessageResult"
  shows "receive (ReadOk MessageText byt (Inr v))
           = ([Log DebugLevel byt [], ChanSend zero_ChatMessage], Continue ())
   \<and> reaction f h (ReadOk MessageText byt (Inr v)) err1 err2
       = relay_loop f h [Wsmsg zero_ChatMessage err1 err2]
   \<and> (1 \<le> sint (chatHistorySize f) \<and> length h < 2 ^ 63 - 1 \<longrightarrow>
        reaction f h (ReadOk MessageText byt (Inr v)) None None
          = ([Log DebugLevel ''Received message'' [(''user'', [])],
              SetJSON (chatEventKey f) (MessageValue zero_ChatMessage) None,
              SetJSON (chatHistoryKey f)
                (HistoryValue (drop (Suc (length h) - nat (sint (chatHistorySize f)))
                                 (h @ [zero_ChatMessage]))) None],
             Continue (drop (Suc (length h) - nat (sint (chatHistorySize f)))
                         (h @ [zero_ChatMessage])))
        \<and> last (drop (Suc (length h) - nat (sint (chatHistorySize f)))
                  (h @ [zero_ChatMessage])) = zero_ChatMessage
        \<and> store_after st (fst (reaction f h (ReadOk MessageText byt (Inr v)) None None))
            (chatEventKey f) = Some (MessageValue zero_ChatMessage)
        \<and> store_after st (fst (reaction f h (ReadOk MessageText byt (Inr v)) None None))
            (chatHistoryKey f)
            = Some (HistoryValue (drop (Suc (length h) - nat (sint (chatHistorySize f)))
                                    (h @ [zero_ChatMessage]))))"
proof -
  let ?r = "ReadOk MessageText byt (Inr v)"
  let ?h = "drop (Suc (length h) - nat (sint (chatHistorySize f))) (h @ [zero_ChatMessage])"
  from assms have recv: "receive ?r = ([Log DebugLevel byt [], ChanSend zero_ChatMessage], Continue ())"
    by (simp add: receive_decoded zero_ChatMessageResult_def)
  then have react: "reaction f h ?r e1 e2 = relay_loop f h [Wsmsg zero_ChatMessage e1 e2]" for e1 e2
    by (simp add: reaction_def)
  have stored: "reaction f h ?r None None
          = ([Log DebugLevel ''Received message'' [(''user'', [])],
              SetJSON (chatEventKey f) (MessageValue zero_ChatMessage) None,
              SetJSON (chatHistoryKey f) (HistoryValue ?h) None], Continue ?h)
        \<and> last ?h = zero_ChatMessage
        \<and> store_after st (fst (reaction f h ?r None None)) (chatEventKey f)
            = Some (MessageValue zero_ChatMessage)
        \<and> store_after st (fst (reaction f h ?r None None)) (chatHistoryKey f)
            = Some (HistoryValue ?h)"
    if cap: "1 \<le> sint (chatHistorySize f)" and len: "length h < 2 ^ 63 - 1"
  proof -
    from len have "length (h @ [zero_ChatMessage]) < 2 ^ 63" by simp
    with cap have "truncate_history (h @ [zero_ChatMessage]) (chatHistorySize f) = Some ?h"
      using truncate_history_nonneg [of "chatHistorySize f" "h @ [zero_ChatMessage]"] by simp
    then have run: "reaction f h ?r None None
          = ([Log DebugLevel ''Received message'' [(''user'', [])],
              SetJSON (chatEventKey f) (MessageValue zero_ChatMessage) None,
              SetJSON (chatHistoryKey f) (HistoryValue ?h) None], Continue ?h)"
      by (simp add: react relay_step_def on_wsmsg_def emit_def bind_Continue log_error_def
          zero_ChatMessage_def)
    from cap have "Suc (length h) - nat (sint (chatHistorySize f)) < length (h @ [zero_ChatMessage])"
      by simp
    then have "last ?h = zero_ChatMessage"
      by (simp only: last_drop) simp
    with run show ?thesis
      using keys_distinct [of f] by (simp add: store_after_def)
  qed
  from recv react stored show ?thesis by blast
qed


text \<open>A data push with an empty payload, after one chat message, with the default capacity.\<close>

theorem missing_payload_yields_zero_message_witness:
  "msgType empty_push = None \<and> msgSubType empty_push = None
   \<and> result empty_push = zero_ChatMessageResult
   \<and> 1 \<le> sint (chatHistorySize default_flags) \<and> length [msgA] < 2 ^ 63 - 1
   \<and> reaction default_flags [msgA] (ReadOk MessageText empty_push_text (Inr empty_push)) None None
      = ([Log DebugLevel ''Received message'' [(''user'', [])],
          SetJSON ''glimesh/ev/chat-message'' (MessageValue \<lparr>Message = [], Username = []\<rparr>) None,
          SetJSON ''glimesh/chat-history''
            (HistoryValue [msgA, \<lparr>Message = [], Username = []\<rparr>]) None],
         Continue [msgA, \<lparr>Message = [], Username = []\<rparr>])"
proof -
  have tags: "msgType empty_push = None" "msgSubType empty_push = None"
    "result empty_push = zero_ChatMessageResult"
    by (simp_all add: empty_push_def)
  have cap: "1 \<le> sint (chatHistorySize default_flags) \<and> length [msgA] < 2 ^ 63 - 1"
    by (simp add: default_flags_def)
  have c: "nat (sint (chatHistorySize default_flags)) = 6"
    by (simp add: default_flags_def)
  have keys: "chatHistoryKey default_flags = ''glimesh/chat-history''"
    "chatEventKey default_flags = ''glimesh/ev/chat-message''"
    by (simp_all add: default_flags_def chatHistoryKey_def chatEventKey_def)
  from missing_payload_yields_zero_message [OF tags, of empty_push_text default_flags "[msgA]"] cap
  have "reaction default_flags [msgA] (ReadOk MessageText empty_push_text (Inr empty_push)) None None
      = ([Log DebugLevel ''Received message'' [(''user'', [])],
          SetJSON (chatEventKey default_flags) (MessageValue zero_ChatMessage) None,
          SetJSON (chatHistoryKey default_flags)
            (HistoryValue (drop (Suc (length [msgA]) - nat (sint (chatHistorySize default_flags)))
                                 ([msgA] @ [zero_ChatMessage]))) None],
             Continue (drop (Suc (length [msgA]) - nat (sint (chatHistorySize default_flags)))
                         ([msgA] @ [zero_ChatMessage])))"
    by blast
  then have "reaction default_flags [msgA] (ReadOk MessageText empty_push_text (Inr empty_push)) None None
      = ([Log DebugLevel ''Received message'' [(''user'', [])],
          SetJSON ''glimesh/ev/chat-message'' (MessageValue \<lparr>Message = [], Username = []\<rparr>) None,
          SetJSON ''glimesh/chat-history''
            (HistoryValue [msgA, \<lparr>Message = [], Username = []\<rparr>]) None],
         Continue [msgA, \<lparr>Message = [], Username = []\<rparr>])"
    by (simp add: c keys zero_ChatMessage_def)
  with tags cap show ?thesis by blast
qed

text \<open>
  Claim C9, as amended. For a history that fits a slice with room for one more
  message, the truncation panics exactly when the capacity is negative. With a negative
  capacity a chat message is set under the chat event key, then the re-slicing panics
  with a lower bound out of range and the history is not written: the bound
  \<^verbatim>\<open>len(chatHistory)-*chatHistorySize\<close> is greater than the length when the
  subtraction does not overflow, and negative when it does.
\<close>

theorem negative_capacity_panics:
  assumes "length h < 2 ^ 63 - 1"
  shows "(truncate_history (h @ [m]) (chatHistorySize f) = None \<longleftrightarrow> sint (chatHistorySize f) < 0)
   \<and> (sint (chatHistorySize f) < 0 \<longrightarrow>
        relay_step f h (Wsmsg m err1 err2)
          = ([Log DebugLevel ''Received message'' [(''user'', Username m)],
              SetJSON (chatEventKey f) (MessageValue m) err1]
             @ log_error err1 ''Could not set chat key'' [(''key'', chatEventKey f)],
             Panic ''slice bounds out of range'')
        \<and> (sint (lower_bound (h @ [m]) (chatHistorySize f)) < 0
             \<or> int (length (h @ [m])) < sint (lower_bound (h @ [m]) (chatHistorySize f)))
        \<and> (int (length (h @ [m])) - sint (chatHistorySize f) < 2 ^ 63 \<longrightarrow>
              int (length (h @ [m])) < sint (lower_bound (h @ [m]) (chatHistorySize f)))
        \<and> (2 ^ 63 \<le> int (length (h @ [m])) - sint (chatHistorySize f) \<longrightarrow>
              sint (lower_bound (h @ [m]) (chatHistorySize f)) < 0))"
proof -
  let ?s = "h @ [m]" and ?n = "chatHistorySize f"
  from assms have len: "length ?s < 2 ^ 63" by simp
  then have ilen: "int (length ?s) < 2 ^ 63"
    by (metis of_nat_less_numeral_power_cancel_iff)
  have low: "- (2 ^ 63) \<le> sint ?n"
    using sint_ge [of ?n] by simp
  have nonneg: "truncate_history ?s ?n \<noteq> None" if "0 \<le> sint ?n"
    using truncate_history_nonneg [OF that len] by simp
  have neg: "truncate_history ?s ?n = None
      \<and> (sint (lower_bound ?s ?n) < 0 \<or> int (length ?s) < sint (lower_bound ?s ?n))
      \<and> (int (length ?s) - sint ?n < 2 ^ 63 \<longrightarrow> int (length ?s) < sint (lower_bound ?s ?n))
      \<and> (2 ^ 63 \<le> int (length ?s) - sint ?n \<longrightarrow> sint (lower_bound ?s ?n) < 0)"
    if n: "sint ?n < 0"
  proof -
    note lb = sint_lower_bound_negative [OF n len]
    from n ilen low have bound: "sint (lower_bound ?s ?n) < 0 \<or> int (length ?s) < sint (lower_bound ?s ?n)"
      by (simp add: lb)
    from n have guard: "sint ?n < int (length ?s)" by simp
    from bound guard have "truncate_history ?s ?n = None"
      by (auto simp: truncate_history_def slice_from_def)
    moreover from n ilen low have "int (length ?s) - sint ?n < 2 ^ 63 \<longrightarrow> int (length ?s) < sint (lower_bound ?s ?n)"
      by (simp add: lb)
    moreover from n ilen low have "2 ^ 63 \<le> int (length ?s) - sint ?n \<longrightarrow> sint (lower_bound ?s ?n) < 0"
      by (simp add: lb)
    ultimately show ?thesis using bound by blast
  qed
  have iff: "truncate_history ?s ?n = None \<longleftrightarrow> sint ?n < 0"
    using nonneg neg by (cases "sint ?n < 0") auto
  have step: "relay_step f h (Wsmsg m err1 err2)
          = ([Log DebugLevel ''Received message'' [(''user'', Username m)],
              SetJSON (chatEventKey f) (MessageValue m) err1]
             @ log_error err1 ''Could not set chat key'' [(''key'', chatEventKey f)],
             Panic ''slice bounds out of range'')"
    if "sint ?n < 0"
    using neg [OF that] by (simp add: relay_step_def on_wsmsg_def emit_def bind_Continue)
  from iff step neg show ?thesis by blast
qed


text \<open>
  The claim as stated says the lower bound is greater than the length for every
  negative capacity. With the capacity \<open>- 2 ^ 63\<close> and an empty history the
  subtraction \<open>1 - (- 2 ^ 63)\<close> wraps to \<open>- 9223372036854775807\<close>, which is not
  greater than the length 1.
\<close>

theorem negative_capacity_counterexample:
  "sint (chatHistorySize (default_flags\<lparr>chatHistorySize := - (2 ^ 63)\<rparr>)) < 0
   \<and> sint (lower_bound ([] @ [msgA]) (chatHistorySize (default_flags\<lparr>chatHistorySize := - (2 ^ 63)\<rparr>)))
       = - 9223372036854775807
   \<and> \<not> int (length ([] @ [msgA]))
         < sint (lower_bound ([] @ [msgA]) (chatHistorySize (default_flags\<lparr>chatHistorySize := - (2 ^ 63)\<rparr>)))"
  by (simp add: lower_bound_def)


text \<open>The capacity \<open>- 1\<close> and an empty history: the lower bound is 2, the length 1.\<close>

theorem negative_capacity_panics_witness:
  "length ([] :: ChatMessage list) < 2 ^ 63 - 1
   \<and> sint (chatHistorySize (default_flags\<lparr>chatHistorySize := - 1\<rparr>)) < 0
   \<and> truncate_history ([] @ [msgA]) (- 1) = None
   \<and> relay_step (default_flags\<lparr>chatHistorySize := - 1\<rparr>) [] (Wsmsg msgA None None)
       = ([Log DebugLevel ''Received message'' [(''user'', ''ann'')],
           SetJSON ''glimesh/ev/chat-message'' (MessageValue msgA) None],
          Panic ''slice bounds out of range'')
   \<and> int (length ([] @ [msgA])) < sint (lower_bound ([] @ [msgA]) (- 1))"
proof -
  let ?f = "default_flags\<lparr>chatHistorySize := - 1\<rparr>"
  have len: "length ([] :: ChatMessage list) < 2 ^ 63 - 1" by simp
  have n: "sint (chatHistorySize ?f) < 0" by simp
  have c: "chatHistorySize ?f = - 1" by simp
  have key: "chatEventKey ?f = ''glimesh/ev/chat-message''"
    by (simp add: chatEventKey_def default_flags_def)
  have user: "Username msgA = ''ann''" by (simp add: msgA_def)
  have small: "int (length ([] @ [msgA])) - sint (chatHistorySize ?f) < 2 ^ 63" by simp
  note all = negative_capacity_panics [OF len, of msgA ?f None None]
  from all n have "truncate_history ([] @ [msgA]) (chatHistorySize ?f) = None" by blast
  then have t: "truncate_history ([] @ [msgA]) (- 1) = None" by (simp only: c)
  from all n have "relay_step ?f [] (Wsmsg msgA None None)
          = ([Log DebugLevel ''Received message'' [(''user'', Username msgA)],
              SetJSON (chatEventKey ?f) (MessageValue msgA) None]
             @ log_error None ''Could not set chat key'' [(''key'', chatEventKey ?f)],
             Panic ''slice bounds out of range'')" by blast
  then have s: "relay_step ?f [] (Wsmsg msgA None None)
       = ([Log DebugLevel ''Received message'' [(''user'', ''ann'')],
           SetJSON ''glimesh/ev/chat-message'' (MessageValue msgA) None],
          Panic ''slice bounds out of range'')"
    by (simp only: key user log_error_def option.case append_Nil2)
  from all n small have "int (length ([] @ [msgA])) < sint (lower_bound ([] @ [msgA]) (chatHistorySize ?f))"
    by blast
  then have b: "int (length ([] @ [msgA])) < sint (lower_bound ([] @ [msgA]) (- 1))"
    by (simp only: c)
  from len n t s b show ?thesis by blast
qed

text \<open>
  Claim C4, as amended. Each frame the program writes is an array of five elements:
  two reference ids, the topic, the event and the payload. Join is
  \<^verbatim>\<open>"1", "1"\<close>, topic \<^verbatim>\<open>__absinthe__:control\<close>, event \<^verbatim>\<open>phx_join\<close>, empty
  payload; subscribe is \<^verbatim>\<open>"1", "2"\<close>, the same topic, event \<^verbatim>\<open>doc\<close>, and a
  subscription query with the channel id; heartbeat is \<^verbatim>\<open>"1", "3"\<close>, topic
  \<^verbatim>\<open>phoenix\<close>, event \<^verbatim>\<open>heartbeat\<close>, empty payload; send is
  \<^verbatim>\<open>"1", "4"\<close>, topic \<^verbatim>\<open>__absinthe__:control\<close>, event \<^verbatim>\<open>doc\<close>, and a mutation
  with the channel id and the escaped message. Every frame written in a run of the
  program, whatever the calls return, is one of the four.
\<close>

theorem outbound_frames:
  \<open>join_frame = frame_text ''1'' ''1'' ''__absinthe__:control'' ''phx_join'' ''{}''
   \<and> subscribe_frame cid
       = frame_text ''1'' ''2'' ''__absinthe__:control'' ''doc''
           (''{"query":"subscription{ chatMessage(channelId: '' @ format_d cid
            @ '') { user { username } message } }","variables":{} }'')
   \<and> heartbeat_frame = frame_text ''1'' ''3'' ''phoenix'' ''heartbeat'' ''{}''
   \<and> send_frame cid v
       = [Str ''1'', Str ''4'', Str ''__absinthe__:control'', Str ''doc'',
          Gql \<lparr>Query = ''mutation {createChatMessage(channelId: '' @ format_d cid
                         @ '', message: {message: "'' @ clean_message v
                         @ ''"}) { message }}'',
               Variables = []\<rparr>]
   \<and> (\<forall>fr res. Write fr res \<in> set (fst (main f r evs)) \<longrightarrow>
          fr = TextFrame join_frame
          \<or> fr = TextFrame (subscribe_frame (channelID f))
          \<or> fr = TextFrame heartbeat_frame
          \<or> (\<exists>w. fr = Marshalled (send_frame (channelID f) w)))\<close>
proof -
  have known: \<open>fr = TextFrame join_frame
          \<or> fr = TextFrame (subscribe_frame (channelID f))
          \<or> fr = TextFrame heartbeat_frame
          \<or> (\<exists>w. fr = Marshalled (send_frame (channelID f) w))\<close>
    if \<open>Write fr res \<in> set (fst (main f r evs))\<close> for fr res
  proof -
    from that have \<open>fr \<in> set (writes (fst (main f r evs)))\<close>
      by (rule Write_in_writes)
    with writes_main have \<open>fr \<in> frame_kinds f\<close>
      by blast
    then show ?thesis
      by (auto simp: frame_kinds_def)
  qed
  have texts: \<open>join_frame = frame_text ''1'' ''1'' ''__absinthe__:control'' ''phx_join'' ''{}''
   \<and> subscribe_frame cid
       = frame_text ''1'' ''2'' ''__absinthe__:control'' ''doc''
           (''{"query":"subscription{ chatMessage(channelId: '' @ format_d cid
            @ '') { user { username } message } }","variables":{} }'')
   \<and> heartbeat_frame = frame_text ''1'' ''3'' ''phoenix'' ''heartbeat'' ''{}''\<close>
    by (simp add: join_frame_def subscribe_frame_def heartbeat_frame_def frame_text_def)
  have send: \<open>send_frame cid v
       = [Str ''1'', Str ''4'', Str ''__absinthe__:control'', Str ''doc'',
          Gql \<lparr>Query = ''mutation {createChatMessage(channelId: '' @ format_d cid
                         @ '', message: {message: "'' @ clean_message v
                         @ ''"}) { message }}'',
               Variables = []\<rparr>]\<close>
    by (simp add: send_frame_def mutation_payload_def)
  from texts send known show ?thesis by blast
qed


text \<open>
  The claim as stated gives the join frame the topic \<^verbatim>\<open>control\<close>; the text the
  program writes has the topic \<^verbatim>\<open>__absinthe__:control\<close>.
\<close>

theorem join_topic_counterexample:
  \<open>join_frame \<noteq> frame_text ''1'' ''1'' ''control'' ''phx_join'' ''{}''
   \<and> join_frame = ''["1","1","__absinthe__:control","phx_join",{}]''\<close>
  by (simp add: join_frame_def frame_text_def)

text \<open>A run of one tick and one request after a startup without errors: the four frames, in order.\<close>

theorem outbound_frames_witness:
  "Write (TextFrame heartbeat_frame) None
     \<in> set (fst (main example_flags all_nil
                    [TickerC None, Incoming ''glimesh/@send-chat-message'' ''hello'' None None]))
   \<and> writes (fst (main example_flags all_nil
                    [TickerC None, Incoming ''glimesh/@send-chat-message'' ''hello'' None None]))
      = [TextFrame join_frame, TextFrame (subscribe_frame 42), TextFrame heartbeat_frame,
         Marshalled (send_frame 42 ''hello'')]
   \<and> (TextFrame heartbeat_frame = TextFrame join_frame
        \<or> TextFrame heartbeat_frame = TextFrame (subscribe_frame (channelID example_flags))
        \<or> TextFrame heartbeat_frame = TextFrame heartbeat_frame
        \<or> (\<exists>w. TextFrame heartbeat_frame = Marshalled (send_frame (channelID example_flags) w)))"
proof -
  let ?evs = "[TickerC None, Incoming ''glimesh/@send-chat-message'' ''hello'' None None]"
  have cid: "channelID example_flags = 42"
    by (simp add: example_flags_def)
  have loop: "relay_loop example_flags [] ?evs
     = ([Write (TextFrame heartbeat_frame) None,
         Log DebugLevel ''Received RPC message'' [(''key'', ''glimesh/@send-chat-message'')],
         Println (Marshalled (send_frame 42 ''hello'')),
         Write (Marshalled (send_frame 42 ''hello'')) None,
         Log DebugLevel ''Sent message'' []], Continue [])"
    by (simp add: relay_step_def on_ticker_def on_incoming_def check_def emit_def bind_Continue cid)
  have written: "Write (TextFrame heartbeat_frame) None \<in> set (fst (main example_flags all_nil ?evs))"
    by (simp only: main_all_nil loop) simp
  have list: "writes (fst (main example_flags all_nil ?evs))
      = [TextFrame join_frame, TextFrame (subscribe_frame 42), TextFrame heartbeat_frame,
         Marshalled (send_frame 42 ''hello'')]"
    by (simp only: main_all_nil loop) simp
  from outbound_frames [of 42 "''hello''" example_flags all_nil ?evs] written
  have "TextFrame heartbeat_frame = TextFrame join_frame
        \<or> TextFrame heartbeat_frame = TextFrame (subscribe_frame (channelID example_flags))
        \<or> TextFrame heartbeat_frame = TextFrame heartbeat_frame
        \<or> (\<exists>w. TextFrame heartbeat_frame = Marshalled (send_frame (channelID example_flags) w))"
    by blast
  with written list show ?thesis by blast
qed

text \<open>
  Claim C3. For every value of a request, the message set into the mutation of the
  frame that is written is the value with its white space cut at both ends and every
  double quote replaced by a backslash and a double quote: it starts and ends with no
  white space. The text \<^verbatim>\<open>say "hi"\<close>, with or without spaces around it, gives
  \<^verbatim>\<open>say \"hi\"\<close>.
\<close>

theorem outgoing_message_is_escaped_and_trimmed:
  \<open>clean_message v = Replace (TrimSpace v) quote [backslash, quote]
   \<and> rune_at_start White_Space (clean_message v) = None
   \<and> rune_at_start (map rev White_Space) (rev (clean_message v)) = None
   \<and> on_incoming f h key v None werr
       = ([Log DebugLevel ''Received RPC message'' [(''key'', key)],
           Println (Marshalled (send_frame (channelID f) v)),
           Write (Marshalled (send_frame (channelID f) v)) werr]
          @ (case werr of
               Some e \<Rightarrow> [Log ErrorLevel ''Could not send chat message'' [(''error'', e)]]
             | None \<Rightarrow> [Log DebugLevel ''Sent message'' []]),
          Continue h)
   \<and> send_frame (channelID f) v ! 4
       = Gql \<lparr>Query = ''mutation {createChatMessage(channelId: '' @ format_d (channelID f)
                        @ '', message: {message: "'' @ clean_message v
                        @ ''"}) { message }}'',
              Variables = []\<rparr>
   \<and> clean_message ''say "hi"'' = ''say '' @ [backslash, quote] @ ''hi'' @ [backslash, quote]
   \<and> clean_message '' say "hi"  '' = ''say '' @ [backslash, quote] @ ''hi'' @ [backslash, quote]\<close>
proof -
  have eq: "clean_message v = Replace (TrimSpace v) quote [backslash, quote]"
    by (simp add: clean_message_def TrimSpace_Replace)
  have trimmed: "rune_at_start White_Space (clean_message v) = None
   \<and> rune_at_start (map rev White_Space) (rev (clean_message v)) = None"
    unfolding clean_message_def by (rule TrimSpace_no_space)
  have sent: "on_incoming f h key v None werr
       = ([Log DebugLevel ''Received RPC message'' [(''key'', key)],
           Println (Marshalled (send_frame (channelID f) v)),
           Write (Marshalled (send_frame (channelID f) v)) werr]
          @ (case werr of
               Some e \<Rightarrow> [Log ErrorLevel ''Could not send chat message'' [(''error'', e)]]
             | None \<Rightarrow> [Log DebugLevel ''Sent message'' []]),
          Continue h)"
    by (simp add: on_incoming_def emit_def bind_Continue)
  have field: \<open>send_frame (channelID f) v ! 4
       = Gql \<lparr>Query = ''mutation {createChatMessage(channelId: '' @ format_d (channelID f)
                        @ '', message: {message: "'' @ clean_message v
                        @ ''"}) { message }}'',
              Variables = []\<rparr>\<close>
    by (simp add: send_frame_def mutation_payload_def)
  have ex1: \<open>clean_message ''say "hi"'' = ''say '' @ [backslash, quote] @ ''hi'' @ [backslash, quote]\<close>
    by code_simp
  have ex2: \<open>clean_message '' say "hi"  '' = ''say '' @ [backslash, quote] @ ''hi'' @ [backslash, quote]\<close>
    by code_simp
  from eq trimmed sent field ex1 ex2 show ?thesis by blast
qed

end
